theory Spec2Isabelle
  imports Main
begin

section \<open>JavaScript values\<close>

text \<open>
  The hook \<^verbatim>\<open>useConversation\<close> handles values that come out of \<^verbatim>\<open>JSON.parse\<close> and
  out of HTTP response bodies, and it tests them with JavaScript truthiness
  (\<^verbatim>\<open>if (text)\<close>, \<^verbatim>\<open>if (next)\<close>, \<^verbatim>\<open>if (!signedUrl)\<close>). Values are therefore modelled
  as a datatype of JavaScript values. A number is represented by an integer; only
  whether it is zero matters to the code.
\<close>

datatype jsval =
    JUndefined
  | JNull
  | JBool bool
  | JNum int
  | JStr string
  | JArr "jsval list"
  | JObj "(string \<times> jsval) list"

datatype js_error =
    SyntaxError
  | TypeError
  | InvalidStateError
  | NetworkError
  | MediaError
  | Error string

fun truthy :: "jsval \<Rightarrow> bool" where
  "truthy JUndefined = False"
| "truthy JNull = False"
| "truthy (JBool b) = b"
| "truthy (JNum n) = (n \<noteq> 0)"
| "truthy (JStr s) = (s \<noteq> [])"
| "truthy (JArr xs) = True"
| "truthy (JObj kvs) = True"

fun nullish :: "jsval \<Rightarrow> bool" where
  "nullish JUndefined = True"
| "nullish JNull = True"
| "nullish v = False"

text \<open>
  \<^verbatim>\<open>v.k\<close> on a value that is neither \<^verbatim>\<open>undefined\<close> nor \<^verbatim>\<open>null\<close>: the field of an object,
  \<^verbatim>\<open>undefined\<close> where the object has no such field or the value is a primitive or an
  array (none of the names the hook reads is a built-in property).
\<close>

fun member_of :: "jsval \<Rightarrow> string \<Rightarrow> jsval" where
  "member_of (JObj kvs) k = (case map_of kvs k of None \<Rightarrow> JUndefined | Some v \<Rightarrow> v)"
| "member_of v k = JUndefined"

text \<open>\<^verbatim>\<open>v.k\<close> (and the destructuring \<^verbatim>\<open>const { k } = v\<close>): a TypeError on \<^verbatim>\<open>undefined\<close> and \<^verbatim>\<open>null\<close>.\<close>

definition get_prop :: "jsval \<Rightarrow> string \<Rightarrow> js_error + jsval" where
  "get_prop v k = (if nullish v then Inl TypeError else Inr (member_of v k))"

text \<open>\<^verbatim>\<open>v?.k\<close>: \<^verbatim>\<open>undefined\<close> on \<^verbatim>\<open>undefined\<close> and \<^verbatim>\<open>null\<close>, never an error.\<close>

definition opt_prop :: "jsval \<Rightarrow> string \<Rightarrow> jsval" where
  "opt_prop v k = (if nullish v then JUndefined else member_of v k)"

section \<open>The data model\<close>

datatype role = User | Agent

record message =
  role :: role
  "text" :: jsval

text \<open>The result of \<^verbatim>\<open>JSON.parse(event.data)\<close> on an inbound socket frame.\<close>

datatype frame = Unparseable | Parsed jsval

text \<open>
  The object handed to \<^verbatim>\<open>JSON.stringify\<close> for each outbound socket message:
  \<^verbatim>\<open>{type: 'conversation_initiation_client_data'}\<close>, \<^verbatim>\<open>{user_audio_chunk: d}\<close> and
  \<^verbatim>\<open>{type: 'pong', event_id: e}\<close>.
\<close>

datatype out_frame = ConversationInitiation | UserAudioChunk jsval | Pong jsval

datatype ready_state = CONNECTING | OPEN | CLOSING | CLOSED

record socket =
  url :: jsval
  readyState :: ready_state
  sent :: "out_frame list"

text \<open>
  The state of one mounted hook together with the platform objects it creates.
  The first six fields are the hook's own React state and refs. The others are the
  platform: every \<^verbatim>\<open>WebSocket\<close> object created so far (a handle is an index into
  \<open>sockets\<close>; the handlers close over the handle, not over \<open>websocketRef\<close>), every
  \<^verbatim>\<open>Audio\<close> element created so far by its source fragment (\<open>audio_started\<close>) and the
  elements whose playback has neither ended nor been rejected (\<open>audio_live\<close>), whether
  the microphone capture of \<^verbatim>\<open>voice-stream\<close> is delivering (\<open>streaming\<close>), the lines
  written with \<^verbatim>\<open>console.error\<close>, and the asynchronous calls still awaited.
  The ref \<^verbatim>\<open>mediaStreamRef\<close> is never read or written by the hook and is left out.
\<close>

record world =
  messages :: "message list"
  isRecording :: bool
  isConnected :: bool
  websocketRef :: "nat option"
  audioQueueRef :: "jsval list"
  isAudioPlayingRef :: bool
  sockets :: "socket list"
  audio_started :: "jsval list"
  audio_live :: "nat list"
  streaming :: bool
  console_errors :: "string list"
  signed_url_pending :: nat
  tts_posted :: "jsval list"
  tts_pending :: nat
  start_streaming_pending :: nat

definition init_world :: world where
  "init_world =
     \<lparr>messages = [], isRecording = False, isConnected = False, websocketRef = None,
      audioQueueRef = [], isAudioPlayingRef = False, sockets = [], audio_started = [],
      audio_live = [], streaming = False, console_errors = [], signed_url_pending = 0,
      tts_posted = [], tts_pending = 0, start_streaming_pending = 0\<rparr>"

section \<open>The platform: sockets, audio elements, capture\<close>

text \<open>\<^verbatim>\<open>ws.readyState\<close>. Every handle the hook holds was returned by \<^verbatim>\<open>new WebSocket\<close>.\<close>

definition ready :: "world \<Rightarrow> nat \<Rightarrow> ready_state" where
  "ready s ws = (if ws < length (sockets s) then readyState (sockets s ! ws) else CLOSED)"

definition set_ready :: "nat \<Rightarrow> ready_state \<Rightarrow> world \<Rightarrow> world" where
  "set_ready ws r s = s\<lparr>sockets := (sockets s)[ws := (sockets s ! ws)\<lparr>readyState := r\<rparr>]\<rparr>"

text \<open>
  \<^verbatim>\<open>new WebSocket(url)\<close>: a SyntaxError when the platform rejects the URL (\<open>url_ok\<close> is the
  platform's verdict), else a new socket in state CONNECTING.
\<close>

definition new_WebSocket :: "jsval \<Rightarrow> bool \<Rightarrow> world \<Rightarrow> js_error + (nat \<times> world)" where
  "new_WebSocket u url_ok s =
     (if \<not> url_ok then Inl SyntaxError
      else Inr (length (sockets s),
                s\<lparr>sockets := sockets s @ [\<lparr>url = u, readyState = CONNECTING, sent = []\<rparr>]\<rparr>))"

text \<open>
  \<^verbatim>\<open>ws.send(data)\<close>: an InvalidStateError while CONNECTING; transmitted while OPEN;
  silently discarded while CLOSING or CLOSED.
\<close>

definition ws_send :: "nat \<Rightarrow> out_frame \<Rightarrow> world \<Rightarrow> js_error + world" where
  "ws_send ws f s =
     (if ready s ws = CONNECTING then Inl InvalidStateError
      else if ready s ws = OPEN
      then Inr (s\<lparr>sockets := (sockets s)[ws := (sockets s ! ws)\<lparr>sent := sent (sockets s ! ws) @ [f]\<rparr>]\<rparr>)
      else Inr s)"

text \<open>\<^verbatim>\<open>ws.close()\<close>: starts the closing handshake unless the socket is closing or closed.\<close>

definition ws_close :: "nat \<Rightarrow> world \<Rightarrow> world" where
  "ws_close ws s =
     (if ready s ws = CONNECTING \<or> ready s ws = OPEN then set_ready ws CLOSING s else s)"

text \<open>
  \<^verbatim>\<open>startStreaming()\<close> and \<^verbatim>\<open>stopStreaming()\<close> of \<^verbatim>\<open>useVoiceStream\<close>: the capture adapter
  begins, respectively ends, delivering frames to \<^verbatim>\<open>onAudioChunked\<close>.
\<close>

definition startStreaming :: "world \<Rightarrow> world" where
  "startStreaming s = s\<lparr>streaming := True\<rparr>"

definition stopStreaming :: "world \<Rightarrow> world" where
  "stopStreaming s = s\<lparr>streaming := False\<rparr>"

text \<open>
  \<^verbatim>\<open>const audio = new Audio(`data:audio/mpeg;base64,${next}`); audio.play()\<close>: a new element
  whose playback has been requested; it stays live until the platform reports
  \<^verbatim>\<open>ended\<close> or rejects the promise of \<^verbatim>\<open>play()\<close>.
\<close>

definition audio_play :: "jsval \<Rightarrow> world \<Rightarrow> world" where
  "audio_play next s =
     s\<lparr>audio_started := audio_started s @ [next],
       audio_live := audio_live s @ [length (audio_started s)]\<rparr>"

section \<open>The Playback Sequencer\<close>

text \<open>
  \<^verbatim>\<open>maybePlayNextAudio\<close>: nothing while a fragment is playing; otherwise \<^verbatim>\<open>shift()\<close> the
  head of the queue and, if it is truthy, mark playing and start it.
\<close>

definition maybePlayNextAudio :: "world \<Rightarrow> world" where
  "maybePlayNextAudio s =
     (if isAudioPlayingRef s then s
      else (case audioQueueRef s of
              [] \<Rightarrow> s
            | next # rest \<Rightarrow>
                (if truthy next
                 then audio_play next (s\<lparr>audioQueueRef := rest, isAudioPlayingRef := True\<rparr>)
                 else s\<lparr>audioQueueRef := rest\<rparr>)))"

text \<open>The handler \<^verbatim>\<open>audio.onended\<close>.\<close>

definition audio_onended :: "world \<Rightarrow> world" where
  "audio_onended s = maybePlayNextAudio (s\<lparr>isAudioPlayingRef := False\<rparr>)"

text \<open>The handler given to \<^verbatim>\<open>audio.play().catch\<close>.\<close>

definition audio_play_rejected :: "world \<Rightarrow> world" where
  "audio_play_rejected s = maybePlayNextAudio (s\<lparr>isAudioPlayingRef := False\<rparr>)"

text \<open>
  \<^verbatim>\<open>audioQueueRef.current.push(x); maybePlayNextAudio();\<close> as both the socket's audio
  branch and the text fallback do, each under its own truthiness guard.
\<close>

definition enqueue_audio :: "jsval \<Rightarrow> world \<Rightarrow> world" where
  "enqueue_audio x s = maybePlayNextAudio (s\<lparr>audioQueueRef := audioQueueRef s @ [x]\<rparr>)"

section \<open>The Conversation Channel\<close>

text \<open>
  A handler returns the state it leaves and the exception that escaped it, if any.
  A promise continuation is a handler of its own, run when the awaited call settles.
\<close>

type_synonym outcome = "world \<times> js_error option"

text \<open>The callback \<^verbatim>\<open>onAudioChunked\<close> given to \<^verbatim>\<open>useVoiceStream\<close>.\<close>

definition onAudioChunked :: "jsval \<Rightarrow> world \<Rightarrow> outcome" where
  "onAudioChunked audioData s =
     (case websocketRef s of
        None \<Rightarrow> (s, None)
      | Some ws \<Rightarrow>
          (if ready s ws \<noteq> OPEN then (s, None)
           else (case ws_send ws (UserAudioChunk audioData) s of
                   Inl e \<Rightarrow> (s, Some e)
                 | Inr s' \<Rightarrow> (s', None))))"

text \<open>
  \<^verbatim>\<open>startConversation\<close> up to \<^verbatim>\<open>await axios.get('/api/signed-url')\<close>. The callback
  reads \<^verbatim>\<open>isConnected\<close> as of the render that created it; the model reads the current
  value, that is, a render has happened since the state last changed.
\<close>

definition startConversation :: "world \<Rightarrow> outcome" where
  "startConversation s =
     (if isConnected s then (s, None)
      else (s\<lparr>signed_url_pending := signed_url_pending s + 1\<rparr>, None))"

datatype fetch_result = FetchFailed | FetchOk jsval

text \<open>The rest of the \<^verbatim>\<open>try\<close> block of \<^verbatim>\<open>startConversation\<close>, once the request has settled.\<close>

definition start_try :: "fetch_result \<Rightarrow> bool \<Rightarrow> world \<Rightarrow> js_error + world" where
  "start_try res url_ok s =
     (case res of
        FetchFailed \<Rightarrow> Inl NetworkError
      | FetchOk data \<Rightarrow>
          (case get_prop data ''signedUrl'' of
             Inl e \<Rightarrow> Inl e
           | Inr signedUrl \<Rightarrow>
               (if \<not> truthy signedUrl then Inl (Error ''Signed URL not provided'')
                else (case new_WebSocket signedUrl url_ok s of
                        Inl e \<Rightarrow> Inl e
                      | Inr (ws, s') \<Rightarrow> Inr (s'\<lparr>websocketRef := Some ws\<rparr>)))))"

text \<open>The continuation of \<^verbatim>\<open>startConversation\<close>, with its \<^verbatim>\<open>catch\<close>.\<close>

definition startConversation_resume :: "fetch_result \<Rightarrow> bool \<Rightarrow> world \<Rightarrow> outcome" where
  "startConversation_resume res url_ok s =
     (case start_try res url_ok s of
        Inl e \<Rightarrow> (s\<lparr>console_errors := console_errors s @ [''Failed to start conversation:'']\<rparr>, None)
      | Inr s' \<Rightarrow> (s', None))"

text \<open>\<^verbatim>\<open>ws.onopen\<close> up to \<^verbatim>\<open>await startStreaming()\<close>.\<close>

definition ws_onopen :: "nat \<Rightarrow> world \<Rightarrow> outcome" where
  "ws_onopen ws s =
     (let s1 = s\<lparr>isConnected := True\<rparr> in
      case ws_send ws ConversationInitiation s1 of
        Inl e \<Rightarrow> (s1, Some e)
      | Inr s2 \<Rightarrow>
          ((startStreaming s2)\<lparr>start_streaming_pending := start_streaming_pending s2 + 1\<rparr>, None))"

text \<open>
  The continuation of \<^verbatim>\<open>ws.onopen\<close>: \<^verbatim>\<open>setIsRecording(true)\<close> once \<^verbatim>\<open>startStreaming()\<close> has
  resolved; a rejection escapes, as the handler has no \<^verbatim>\<open>catch\<close>.
\<close>

definition ws_onopen_resume :: "bool \<Rightarrow> world \<Rightarrow> outcome" where
  "ws_onopen_resume resolved s =
     (if resolved then (s\<lparr>isRecording := True\<rparr>, None) else (s, Some MediaError))"

text \<open>\<^verbatim>\<open>ws.onmessage\<close>.\<close>

definition ws_onmessage :: "nat \<Rightarrow> frame \<Rightarrow> world \<Rightarrow> outcome" where
  "ws_onmessage ws fr s =
     (case fr of
        Unparseable \<Rightarrow> (s, Some SyntaxError)
      | Parsed data \<Rightarrow>
          (case get_prop data ''type'' of
             Inl e \<Rightarrow> (s, Some e)
           | Inr ty \<Rightarrow>
               (if ty = JStr ''ping''
                then (case get_prop (member_of data ''ping_event'') ''event_id'' of
                        Inl e \<Rightarrow> (s, Some e)
                      | Inr event_id \<Rightarrow>
                          (case ws_send ws (Pong event_id) s of
                             Inl e \<Rightarrow> (s, Some e)
                           | Inr s' \<Rightarrow> (s', None)))
                else
                  (let s1 =
                         (if ty = JStr ''user_transcript''
                          then (let t = opt_prop (member_of data ''user_transcription_event'')
                                          ''user_transcript''
                                in if truthy t
                                   then s\<lparr>messages := messages s @ [\<lparr>role = User, text = t\<rparr>]\<rparr>
                                   else s)
                          else s);
                       s2 =
                         (if ty = JStr ''agent_response''
                          then (let t = opt_prop (member_of data ''agent_response_event'')
                                          ''agent_response''
                                in if truthy t
                                   then s1\<lparr>messages := messages s1 @ [\<lparr>role = Agent, text = t\<rparr>]\<rparr>
                                   else s1)
                          else s1);
                       s3 =
                         (if ty = JStr ''audio''
                          then (let base64Audio = opt_prop (member_of data ''audio_event'')
                                                    ''audio_base_64''
                                in if truthy base64Audio then enqueue_audio base64Audio s2 else s2)
                          else s2)
                   in (s3, None)))))"

text \<open>\<^verbatim>\<open>ws.onclose\<close>.\<close>

definition ws_onclose :: "nat \<Rightarrow> world \<Rightarrow> outcome" where
  "ws_onclose ws s =
     (stopStreaming (s\<lparr>websocketRef := None, isConnected := False, isRecording := False\<rparr>), None)"

text \<open>\<^verbatim>\<open>stopConversation\<close>.\<close>

definition stopConversation :: "world \<Rightarrow> outcome" where
  "stopConversation s =
     (let s1 = (case websocketRef s of
                  None \<Rightarrow> s
                | Some ws \<Rightarrow> (if ready s ws = OPEN then ws_close ws s else s))
      in (stopStreaming (s1\<lparr>websocketRef := None, isConnected := False, isRecording := False\<rparr>),
          None))"

section \<open>The Text Fallback Path\<close>

text \<open>\<^verbatim>\<open>sendTextMessage\<close> up to \<^verbatim>\<open>await axios.post('/api/tts', { text })\<close>.\<close>

definition sendTextMessage :: "jsval \<Rightarrow> world \<Rightarrow> outcome" where
  "sendTextMessage t s =
     (if \<not> truthy t then (s, None)
      else (s\<lparr>messages := messages s @ [\<lparr>role = User, text = t\<rparr>],
              tts_posted := tts_posted s @ [t],
              tts_pending := tts_pending s + 1\<rparr>, None))"

datatype tts_result = TtsFailed | TtsOk jsval

text \<open>The rest of the \<^verbatim>\<open>try\<close> block of \<^verbatim>\<open>sendTextMessage\<close>, once the request has settled.\<close>

definition tts_try :: "tts_result \<Rightarrow> world \<Rightarrow> js_error + world" where
  "tts_try res s =
     (case res of
        TtsFailed \<Rightarrow> Inl NetworkError
      | TtsOk data \<Rightarrow>
          (case get_prop data ''audio'' of
             Inl e \<Rightarrow> Inl e
           | Inr audioBase64 \<Rightarrow>
               (if truthy audioBase64
                then (let s1 = enqueue_audio audioBase64 s
                      in Inr (s1\<lparr>messages := messages s1 @ [\<lparr>role = Agent, text = JStr ''[audio]''\<rparr>]\<rparr>))
                else Inr s)))"

text \<open>The continuation of \<^verbatim>\<open>sendTextMessage\<close>, with its \<^verbatim>\<open>catch\<close>.\<close>

definition sendTextMessage_resume :: "tts_result \<Rightarrow> world \<Rightarrow> outcome" where
  "sendTextMessage_resume res s =
     (case tts_try res s of
        Inl e \<Rightarrow>
          (s\<lparr>console_errors := console_errors s @ [''Failed to perform TTS:''],
             messages := messages s @ [\<lparr>role = Agent, text = JStr ''Sorry, I could not process that.''\<rparr>]\<rparr>,
           None)
      | Inr s' \<Rightarrow> (s', None))"

section \<open>The event loop\<close>

text \<open>
  Everything that can happen to the hook: the three control entry points called by
  the UI, the settling of an awaited call, a socket event, a captured frame, and the
  end or rejection of a playback. The platform dispatches \<^verbatim>\<open>open\<close> only on a connecting
  socket, \<^verbatim>\<open>message\<close> only on an open one and \<^verbatim>\<open>close\<close> once per socket, and it sets
  \<^verbatim>\<open>readyState\<close> before the handler runs. An event that cannot occur leaves the state as
  it is. An exception that escapes a handler is reported by the platform and the state
  stays as the handler left it.
\<close>

datatype event =
    StartConversation
  | StopConversation
  | SendTextMessage jsval
  | SignedUrlResponse fetch_result bool
  | TtsResponse tts_result
  | StreamingStarted bool
  | SocketOpen nat
  | SocketMessage nat frame
  | SocketClose nat
  | AudioChunk jsval
  | AudioEnded nat
  | AudioFailed nat

fun fire :: "event \<Rightarrow> world \<Rightarrow> world" where
  "fire StartConversation s = fst (startConversation s)"
| "fire StopConversation s = fst (stopConversation s)"
| "fire (SendTextMessage t) s = fst (sendTextMessage t s)"
| "fire (SignedUrlResponse res url_ok) s =
     (if signed_url_pending s = 0 then s
      else fst (startConversation_resume res url_ok
                  (s\<lparr>signed_url_pending := signed_url_pending s - 1\<rparr>)))"
| "fire (TtsResponse res) s =
     (if tts_pending s = 0 then s
      else fst (sendTextMessage_resume res (s\<lparr>tts_pending := tts_pending s - 1\<rparr>)))"
| "fire (StreamingStarted resolved) s =
     (if start_streaming_pending s = 0 then s
      else fst (ws_onopen_resume resolved
                  (s\<lparr>start_streaming_pending := start_streaming_pending s - 1\<rparr>)))"
| "fire (SocketOpen ws) s =
     (if ready s ws = CONNECTING then fst (ws_onopen ws (set_ready ws OPEN s)) else s)"
| "fire (SocketMessage ws fr) s =
     (if ready s ws = OPEN then fst (ws_onmessage ws fr s) else s)"
| "fire (SocketClose ws) s =
     (if ws < length (sockets s) \<and> ready s ws \<noteq> CLOSED
      then fst (ws_onclose ws (set_ready ws CLOSED s)) else s)"
| "fire (AudioChunk d) s = fst (onAudioChunked d s)"
| "fire (AudioEnded k) s =
     (if k \<in> set (audio_live s)
      then audio_onended (s\<lparr>audio_live := removeAll k (audio_live s)\<rparr>) else s)"
| "fire (AudioFailed k) s =
     (if k \<in> set (audio_live s)
      then audio_play_rejected (s\<lparr>audio_live := removeAll k (audio_live s)\<rparr>) else s)"

fun run :: "event list \<Rightarrow> world \<Rightarrow> world" where
  "run [] s = s"
| "run (e # es) s = run es (fire e s)"

section \<open>Events of the Playback Sequencer alone\<close>

text \<open>
  What the sequencer sees: a fragment is enqueued (by either caller), or the platform
  reports that the playback of element \<open>k\<close> has ended or that its \<^verbatim>\<open>play()\<close> was rejected.
\<close>

datatype seq_event = Enqueue jsval | PlaybackEnded nat | PlaybackFailed nat

fun seq_fire :: "seq_event \<Rightarrow> world \<Rightarrow> world" where
  "seq_fire (Enqueue f) s = enqueue_audio f s"
| "seq_fire (PlaybackEnded k) s = fire (AudioEnded k) s"
| "seq_fire (PlaybackFailed k) s = fire (AudioFailed k) s"

fun run_seq :: "seq_event list \<Rightarrow> world \<Rightarrow> world" where
  "run_seq [] s = s"
| "run_seq (e # es) s = run_seq es (seq_fire e s)"

text \<open>The fragments a sequence of events enqueues, in order.\<close>

fun enqueued :: "seq_event list \<Rightarrow> jsval list" where
  "enqueued [] = []"
| "enqueued (Enqueue f # es) = f # enqueued es"
| "enqueued (e # es) = enqueued es"

text \<open>
  The sequencer's invariant: the queue holds truthy fragments only (both callers push
  under a truthiness guard); while the flag is set exactly one element is live; while
  it is clear none is live and nothing waits.
\<close>

definition seq_inv :: "world \<Rightarrow> bool" where
  "seq_inv s =
     (list_all truthy (audioQueueRef s) \<and>
      (if isAudioPlayingRef s then length (audio_live s) = 1
       else audio_live s = [] \<and> audioQueueRef s = []))"

text \<open>
  The platform completes the live element once per entry of the list: \<open>True\<close> for
  \<^verbatim>\<open>ended\<close>, \<open>False\<close> for a rejected \<^verbatim>\<open>play()\<close>.
\<close>

fun complete_all :: "bool list \<Rightarrow> world \<Rightarrow> world" where
  "complete_all [] s = s"
| "complete_all (b # bs) s =
     (case audio_live s of
        [] \<Rightarrow> s
      | k # ks \<Rightarrow> complete_all bs (seq_fire (if b then PlaybackEnded k else PlaybackFailed k) s))"

text \<open>
  \<open>t\<close> is \<open>s\<close> one fragment on: with an empty queue the flag is clear and nothing is
  live; otherwise the head of the queue has been started as a new element, the only
  live one, and the flag is set.
\<close>

definition advances_to :: "world \<Rightarrow> world \<Rightarrow> bool" where
  "advances_to s t =
     (case audioQueueRef s of
        [] \<Rightarrow> \<not> isAudioPlayingRef t \<and> audio_live t = [] \<and>
              audio_started t = audio_started s \<and> audioQueueRef t = []
      | f # q \<Rightarrow> isAudioPlayingRef t \<and> audio_live t = [length (audio_started s)] \<and>
              audio_started t = audio_started s @ [f] \<and> audioQueueRef t = q)"

section \<open>Reference states and wire messages\<close>

text \<open>The body of a successful answer of \<^verbatim>\<open>GET /api/signed-url\<close>.\<close>

definition signed_url_body :: jsval where
  "signed_url_body = JObj [(''signedUrl'', JStr ''wss://agent.example/ws'')]"

text \<open>A started session whose socket has been created and is still connecting.\<close>

definition connecting_world :: world where
  "connecting_world =
     run [StartConversation, SignedUrlResponse (FetchOk signed_url_body) True] init_world"

text \<open>The session once the socket has opened and capture has started: the Active state.\<close>

definition active_world :: world where
  "active_world = run [SocketOpen 0, StreamingStarted True] connecting_world"

text \<open>The inbound wire messages of the voice socket.\<close>

definition ping_frame :: "jsval \<Rightarrow> frame" where
  "ping_frame event_id =
     Parsed (JObj [(''type'', JStr ''ping''), (''ping_event'', JObj [(''event_id'', event_id)])])"

definition user_transcript_frame :: "jsval \<Rightarrow> frame" where
  "user_transcript_frame t =
     Parsed (JObj [(''type'', JStr ''user_transcript''),
                   (''user_transcription_event'', JObj [(''user_transcript'', t)])])"

definition agent_response_frame :: "jsval \<Rightarrow> frame" where
  "agent_response_frame t =
     Parsed (JObj [(''type'', JStr ''agent_response''),
                   (''agent_response_event'', JObj [(''agent_response'', t)])])"

definition audio_frame :: "jsval \<Rightarrow> frame" where
  "audio_frame a =
     Parsed (JObj [(''type'', JStr ''audio''), (''audio_event'', JObj [(''audio_base_64'', a)])])"

text \<open>The user-audio chunks among the frames sent on a socket, and on every socket.\<close>

fun chunks_of :: "out_frame list \<Rightarrow> jsval list" where
  "chunks_of [] = []"
| "chunks_of (UserAudioChunk d # fs) = d # chunks_of fs"
| "chunks_of (f # fs) = chunks_of fs"

definition chunks_sent :: "world \<Rightarrow> jsval list list" where
  "chunks_sent s = map (\<lambda>k. chunks_of (sent k)) (sockets s)"

text \<open>
  The one event that stores a socket in \<open>websocketRef\<close>: the continuation of
  \<^verbatim>\<open>startConversation\<close>.
\<close>

fun installs_socket :: "event \<Rightarrow> bool" where
  "installs_socket (SignedUrlResponse res url_ok) = True"
| "installs_socket e = False"

text \<open>The session at rest: no socket held, both indicators off, capture stopped.\<close>

definition idle :: "world \<Rightarrow> bool" where
  "idle s = (websocketRef s = None \<and> \<not> isConnected s \<and> \<not> isRecording s \<and> \<not> streaming s)"

section \<open>The Playback Sequencer is first-in first-out\<close>

lemma seq_fire_inv:
  "seq_inv s \<Longrightarrow> (case e of Enqueue f \<Rightarrow> truthy f | _ \<Rightarrow> True) \<Longrightarrow> seq_inv (seq_fire e s)"
  by (cases e)
     (auto simp: seq_inv_def enqueue_audio_def maybePlayNextAudio_def audio_play_def
        audio_onended_def audio_play_rejected_def length_Suc_conv
        split: list.splits if_splits)

lemma seq_fire_order:
  "seq_inv s \<Longrightarrow> (case e of Enqueue f \<Rightarrow> truthy f | _ \<Rightarrow> True) \<Longrightarrow>
   audio_started (seq_fire e s) @ audioQueueRef (seq_fire e s) =
   audio_started s @ audioQueueRef s @ enqueued [e]"
  by (cases e)
     (auto simp: seq_inv_def enqueue_audio_def maybePlayNextAudio_def audio_play_def
        audio_onended_def audio_play_rejected_def length_Suc_conv
        split: list.splits if_splits)

lemma seq_fire_started:
  "\<exists>ys. audio_started (seq_fire e s) = audio_started s @ ys"
  by (cases e)
     (auto simp: enqueue_audio_def maybePlayNextAudio_def audio_play_def
        audio_onended_def audio_play_rejected_def split: list.splits)

lemma run_seq_started:
  "\<exists>ys. audio_started (run_seq evs s) = audio_started s @ ys"
proof (induction evs arbitrary: s)
  case Nil
  show ?case by simp
next
  case (Cons e evs)
  obtain ys where a: "audio_started (seq_fire e s) = audio_started s @ ys"
    using seq_fire_started by blast
  obtain zs where b: "audio_started (run_seq evs (seq_fire e s)) = audio_started (seq_fire e s) @ zs"
    using Cons.IH by blast
  show ?case using a b by simp
qed

lemma enqueued_Cons: "enqueued (e # es) = enqueued [e] @ enqueued es"
  by (cases e) simp_all

lemma enqueued_truthy_hd:
  "list_all truthy (enqueued (e # es)) \<Longrightarrow> (case e of Enqueue f \<Rightarrow> truthy f | _ \<Rightarrow> True)"
  by (cases e) simp_all

lemma enqueued_truthy_tl:
  "list_all truthy (enqueued (e # es)) \<Longrightarrow> list_all truthy (enqueued es)"
  by (cases e) simp_all

lemma run_seq_inv:
  "seq_inv s \<Longrightarrow> list_all truthy (enqueued evs) \<Longrightarrow> seq_inv (run_seq evs s)"
proof (induction evs arbitrary: s)
  case Nil
  then show ?case by simp
next
  case (Cons e evs)
  have "seq_inv (seq_fire e s)"
    using Cons.prems enqueued_truthy_hd seq_fire_inv by blast
  then show ?case
    using Cons.IH Cons.prems(2) enqueued_truthy_tl by simp
qed

lemma run_seq_order:
  "seq_inv s \<Longrightarrow> list_all truthy (enqueued evs) \<Longrightarrow>
   audio_started (run_seq evs s) @ audioQueueRef (run_seq evs s) =
   audio_started s @ audioQueueRef s @ enqueued evs"
proof (induction evs arbitrary: s)
  case Nil
  then show ?case by simp
next
  case (Cons e evs)
  have h: "case e of Enqueue f \<Rightarrow> truthy f | _ \<Rightarrow> True"
    using Cons.prems(2) enqueued_truthy_hd by blast
  have i: "seq_inv (seq_fire e s)"
    using Cons.prems(1) h seq_fire_inv by blast
  have "audio_started (run_seq evs (seq_fire e s)) @ audioQueueRef (run_seq evs (seq_fire e s)) =
        audio_started (seq_fire e s) @ audioQueueRef (seq_fire e s) @ enqueued evs"
    using Cons.IH i Cons.prems(2) enqueued_truthy_tl by blast
  also have "\<dots> = (audio_started s @ audioQueueRef s @ enqueued [e]) @ enqueued evs"
    using seq_fire_order [OF Cons.prems(1) h] by simp
  finally show ?case
    using enqueued_Cons [of e evs] by simp
qed

lemma seq_inv_live:
  "seq_inv s \<Longrightarrow> length (audio_live s) \<le> 1 \<and> isAudioPlayingRef s = (audio_live s \<noteq> [])"
  by (auto simp: seq_inv_def split: if_splits)

lemma completion_step:
  "seq_inv s \<Longrightarrow> audio_live s = [k] \<Longrightarrow>
   advances_to s (seq_fire (PlaybackFailed k) s) \<and> advances_to s (seq_fire (PlaybackEnded k) s)"
  by (auto simp: seq_inv_def advances_to_def maybePlayNextAudio_def audio_play_def
        audio_onended_def audio_play_rejected_def split: list.splits if_splits)

lemma complete_all_drains:
  "seq_inv s \<Longrightarrow> length outs = length (audioQueueRef s) + length (audio_live s) \<Longrightarrow>
   audio_started (complete_all outs s) = audio_started s @ audioQueueRef s \<and>
   audioQueueRef (complete_all outs s) = [] \<and> audio_live (complete_all outs s) = [] \<and>
   \<not> isAudioPlayingRef (complete_all outs s)"
proof (induction outs arbitrary: s)
  case Nil
  then show ?case by (auto simp: seq_inv_def split: if_splits)
next
  case (Cons b bs)
  note inv_s = Cons.prems(1) and len_s = Cons.prems(2) and IH = Cons.IH
  have "audio_live s \<noteq> []"
    using inv_s len_s by (auto simp: seq_inv_def split: if_splits)
  then obtain k where k: "audio_live s = [k]"
    using seq_inv_live [OF inv_s] by (cases "audio_live s") auto
  define t where "t = seq_fire (if b then PlaybackEnded k else PlaybackFailed k) s"
  have adv: "advances_to s t"
    using completion_step [OF inv_s k] by (simp add: t_def)
  have inv_t: "seq_inv t"
    unfolding t_def using seq_fire_inv [OF inv_s] by simp
  have unfold: "complete_all (b # bs) s = complete_all bs t"
    using k by (simp add: t_def)
  show ?case
  proof (cases "audioQueueRef s")
    case Nil
    then have "bs = []" using len_s k by simp
    then show ?thesis using adv Nil unfold by (simp add: advances_to_def)
  next
    case waiting: (Cons f q)
    have len_t: "length bs = length (audioQueueRef t) + length (audio_live t)"
      using adv waiting len_s k by (simp add: advances_to_def)
    show ?thesis
      using IH [OF inv_t len_t] adv waiting unfold by (simp add: advances_to_def)
  qed
qed

text \<open>Every event of the whole hook keeps the sequencer's invariant.\<close>

lemma enqueue_audio_inv: "seq_inv s \<Longrightarrow> truthy a \<Longrightarrow> seq_inv (enqueue_audio a s)"
  using seq_fire_inv [of s "Enqueue a"] by simp

lemma ws_send_seq:
  "ws_send ws f s = Inr s' \<Longrightarrow> seq_inv s' = seq_inv s"
  by (auto simp: ws_send_def seq_inv_def split: if_splits)

lemma onmessage_inv:
  assumes inv: "seq_inv s"
  shows "seq_inv (fst (ws_onmessage ws fr s))"
proof (cases fr)
  case Unparseable
  then show ?thesis using inv by (simp add: ws_onmessage_def)
next
  case (Parsed data)
  show ?thesis
  proof (cases "get_prop data ''type''")
    case (Inl e)
    then show ?thesis using Parsed inv by (simp add: ws_onmessage_def)
  next
    case (Inr ty)
    show ?thesis
    proof (cases "ty = JStr ''ping''")
      case True
      then show ?thesis using Parsed Inr inv
        by (auto simp: ws_onmessage_def split: sum.splits dest: ws_send_seq)
    next
      case False
      have m: "seq_inv (s\<lparr>messages := m\<rparr>)" for m
        using inv by (simp add: seq_inv_def)
      show ?thesis using False Parsed Inr inv m
        by (simp add: ws_onmessage_def Let_def enqueue_audio_inv)
    qed
  qed
qed

lemma resume_inv:
  assumes inv: "seq_inv s"
  shows "seq_inv (fst (sendTextMessage_resume res s))"
proof -
  have m: "seq_inv t \<Longrightarrow> seq_inv (t\<lparr>messages := m\<rparr>)" for m t
    by (simp add: seq_inv_def)
  have c: "seq_inv (s\<lparr>console_errors := c, messages := m\<rparr>)" for c m
    using inv by (simp add: seq_inv_def)
  show ?thesis
    using inv c
    by (auto simp: sendTextMessage_resume_def tts_try_def Let_def m enqueue_audio_inv
          split: sum.splits tts_result.splits if_splits)
qed

lemma onopen_seq: "seq_inv (fst (ws_onopen ws t)) = seq_inv t"
  by (auto simp: ws_onopen_def Let_def ws_send_def startStreaming_def seq_inv_def
        split: sum.splits if_splits)

lemma start_resume_seq: "seq_inv (fst (startConversation_resume res ok t)) = seq_inv t"
  by (auto simp: startConversation_resume_def start_try_def new_WebSocket_def seq_inv_def
        split: sum.splits fetch_result.splits if_splits)

lemma fire_seq_inv:
  assumes inv: "seq_inv s"
  shows "seq_inv (fire e s)"
proof (cases e)
  case (SocketMessage ws fr)
  then show ?thesis using inv onmessage_inv by simp
next
  case (TtsResponse res)
  have "seq_inv (s\<lparr>tts_pending := n\<rparr>)" for n
    using inv by (simp add: seq_inv_def)
  then show ?thesis using TtsResponse inv resume_inv by simp
next
  case (AudioEnded k)
  then show ?thesis using inv seq_fire_inv [of s "PlaybackEnded k"] by simp
next
  case (AudioFailed k)
  then show ?thesis using inv seq_fire_inv [of s "PlaybackFailed k"] by simp
next
  case (SocketOpen ws)
  have "seq_inv (set_ready ws OPEN s)"
    using inv by (simp add: set_ready_def seq_inv_def)
  then show ?thesis using SocketOpen inv by (simp add: onopen_seq)
next
  case (SignedUrlResponse res ok)
  have "seq_inv (s\<lparr>signed_url_pending := n\<rparr>)" for n
    using inv by (simp add: seq_inv_def)
  then show ?thesis using SignedUrlResponse inv by (simp add: start_resume_seq)
next
  case StartConversation
  then show ?thesis using inv by (simp add: seq_inv_def startConversation_def)
next
  case StopConversation
  then show ?thesis using inv
    by (simp add: seq_inv_def stopConversation_def stopStreaming_def ws_close_def set_ready_def
          Let_def split: option.splits)
next
  case (SendTextMessage t)
  then show ?thesis using inv by (simp add: seq_inv_def sendTextMessage_def)
next
  case (StreamingStarted ok)
  then show ?thesis using inv by (simp add: seq_inv_def ws_onopen_resume_def)
next
  case (SocketClose ws)
  then show ?thesis using inv
    by (simp add: seq_inv_def ws_onclose_def stopStreaming_def set_ready_def)
next
  case (AudioChunk d)
  then show ?thesis using inv
    by (simp add: seq_inv_def onAudioChunked_def ws_send_def split: option.splits)
qed

lemma run_seq_inv_world: "seq_inv s \<Longrightarrow> seq_inv (run evs s)"
  by (induction evs arbitrary: s) (simp_all add: fire_seq_inv)

lemma init_seq_inv: "seq_inv init_world"
  by (simp add: seq_inv_def init_world_def)

text \<open>
  C1. Start the sequencer in any state that satisfies its invariant and let any
  sequence of events happen, each enqueuing a truthy fragment or ending or failing a
  playback. Then: the fragments whose playback has begun, followed by those still
  waiting, are the earlier ones followed by the enqueued ones in enqueue order, and
  playback already begun is never revised; at most one element is live, and the
  playing flag is set exactly while one is; when the live fragment fails (or ends) the
  flag is cleared and the head of the queue, if any, is started at once; and whatever
  mixture of endings and failures the platform reports, once every pending playback
  has completed every enqueued fragment has been started, in order, and the
  sequencer is at rest. The same bound holds in the whole hook: whatever events
  follow, at most one element is live and the flag is set exactly while one is.
\<close>

theorem playback_sequencer_fifo:
  assumes "seq_inv s" and "list_all truthy (enqueued evs)"
  shows "let s' = run_seq evs s in
           audio_started s' @ audioQueueRef s' = audio_started s @ audioQueueRef s @ enqueued evs \<and>
           take (length (audio_started s)) (audio_started s') = audio_started s \<and>
           length (audio_live s') \<le> 1 \<and>
           isAudioPlayingRef s' = (audio_live s' \<noteq> []) \<and>
           (\<forall>k. audio_live s' = [k] \<longrightarrow>
                  advances_to s' (seq_fire (PlaybackFailed k) s') \<and>
                  advances_to s' (seq_fire (PlaybackEnded k) s')) \<and>
           (\<forall>outs. length outs = length (audioQueueRef s') + length (audio_live s') \<longrightarrow>
                  (let u = complete_all outs s' in
                     audio_started u = audio_started s' @ audioQueueRef s' \<and>
                     audioQueueRef u = [] \<and> audio_live u = [] \<and> \<not> isAudioPlayingRef u)) \<and>
           (\<forall>hevs. length (audio_live (run hevs s')) \<le> 1 \<and>
                    isAudioPlayingRef (run hevs s') = (audio_live (run hevs s') \<noteq> []))"
proof -
  define s' where "s' = run_seq evs s"
  have inv: "seq_inv s'"
    unfolding s'_def using assms by (rule run_seq_inv)
  have ord: "audio_started s' @ audioQueueRef s' = audio_started s @ audioQueueRef s @ enqueued evs"
    unfolding s'_def using assms by (rule run_seq_order)
  obtain ys where "audio_started s' = audio_started s @ ys"
    unfolding s'_def using run_seq_started by blast
  then have pre: "take (length (audio_started s)) (audio_started s') = audio_started s"
    by simp
  have step: "\<forall>k. audio_live s' = [k] \<longrightarrow>
                  advances_to s' (seq_fire (PlaybackFailed k) s') \<and>
                  advances_to s' (seq_fire (PlaybackEnded k) s')"
    using completion_step [OF inv] by blast
  have drain: "\<forall>outs. length outs = length (audioQueueRef s') + length (audio_live s') \<longrightarrow>
                  (let u = complete_all outs s' in
                     audio_started u = audio_started s' @ audioQueueRef s' \<and>
                     audioQueueRef u = [] \<and> audio_live u = [] \<and> \<not> isAudioPlayingRef u)"
    using complete_all_drains [OF inv] by (simp add: Let_def)
  have hook: "\<forall>hevs. length (audio_live (run hevs s')) \<le> 1 \<and>
                    isAudioPlayingRef (run hevs s') = (audio_live (run hevs s') \<noteq> [])"
    using seq_inv_live [OF run_seq_inv_world [OF inv]] by blast
  show ?thesis
    using ord pre seq_inv_live [OF inv] step drain hook
    unfolding s'_def [symmetric] Let_def by blast
qed

theorem playback_sequencer_fifo_witness:
  "seq_inv init_world \<and>
   list_all truthy (enqueued [Enqueue (JStr ''A''), Enqueue (JStr ''B''), PlaybackFailed 0,
                              Enqueue (JStr ''C'')]) \<and>
   (let s' = run_seq [Enqueue (JStr ''A''), Enqueue (JStr ''B''), PlaybackFailed 0,
                      Enqueue (JStr ''C'')] init_world
    in audio_started s' @ audioQueueRef s' = [JStr ''A'', JStr ''B'', JStr ''C''] \<and>
       audio_started s' = [JStr ''A'', JStr ''B''] \<and>
       audio_live s' = [1] \<and>
       advances_to s' (seq_fire (PlaybackFailed 1) s') \<and>
       audio_started (complete_all [False, True] s') = [JStr ''A'', JStr ''B'', JStr ''C''])"
proof -
  have h1: "seq_inv init_world"
    by (simp add: seq_inv_def init_world_def)
  have h2: "list_all truthy (enqueued [Enqueue (JStr ''A''), Enqueue (JStr ''B''),
                                       PlaybackFailed 0, Enqueue (JStr ''C'')])"
    by simp
  have r: "run_seq [Enqueue (JStr ''A''), Enqueue (JStr ''B''), PlaybackFailed 0,
                      Enqueue (JStr ''C'')] init_world =
           init_world\<lparr>audio_started := [JStr ''A'', JStr ''B''], audioQueueRef := [JStr ''C''],
                       audio_live := [1], isAudioPlayingRef := True\<rparr>"
    by (simp add: init_world_def enqueue_audio_def maybePlayNextAudio_def audio_play_def
          audio_play_rejected_def)
  have t: "audio_started (run_seq [Enqueue (JStr ''A''), Enqueue (JStr ''B''), PlaybackFailed 0,
                      Enqueue (JStr ''C'')] init_world) @
           audioQueueRef (run_seq [Enqueue (JStr ''A''), Enqueue (JStr ''B''), PlaybackFailed 0,
                      Enqueue (JStr ''C'')] init_world) = [JStr ''A'', JStr ''B'', JStr ''C'']"
    using playback_sequencer_fifo [OF h1 h2] unfolding r Let_def by (simp add: init_world_def)
  have c: "advances_to (run_seq [Enqueue (JStr ''A''), Enqueue (JStr ''B''), PlaybackFailed 0,
                      Enqueue (JStr ''C'')] init_world)
             (seq_fire (PlaybackFailed 1) (run_seq [Enqueue (JStr ''A''), Enqueue (JStr ''B''), PlaybackFailed 0,
                      Enqueue (JStr ''C'')] init_world))"
    using playback_sequencer_fifo [OF h1 h2] unfolding r Let_def by simp
  have d: "audio_started (complete_all [False, True] (run_seq [Enqueue (JStr ''A''), Enqueue (JStr ''B''), PlaybackFailed 0,
                      Enqueue (JStr ''C'')] init_world)) = [JStr ''A'', JStr ''B'', JStr ''C'']"
    unfolding r
    by (simp add: init_world_def enqueue_audio_def maybePlayNextAudio_def audio_play_def
          audio_play_rejected_def audio_onended_def)
  have e: "audio_started (run_seq [Enqueue (JStr ''A''), Enqueue (JStr ''B''), PlaybackFailed 0,
                      Enqueue (JStr ''C'')] init_world) = [JStr ''A'', JStr ''B''] \<and>
           audio_live (run_seq [Enqueue (JStr ''A''), Enqueue (JStr ''B''), PlaybackFailed 0,
                      Enqueue (JStr ''C'')] init_world) = [1]"
    unfolding r by simp
  show ?thesis
    unfolding Let_def using h1 h2 t c d e by blast
qed

section \<open>Captured frames\<close>

lemma chunks_of_append: "chunks_of (xs @ ys) = chunks_of xs @ chunks_of ys"
  by (induction xs rule: chunks_of.induct) simp_all

lemma map_update_same:
  "f y = f (xs ! i) \<Longrightarrow> map f (xs[i := y]) = map f xs"
  by (metis list_update_id map_update)

lemma chunks_sent_set_ready: "chunks_sent (set_ready ws r s) = chunks_sent s"
  by (simp add: chunks_sent_def set_ready_def map_update_same)

lemma chunks_sent_ws_send:
  "ws_send ws f s = Inr s' \<Longrightarrow> (case f of UserAudioChunk d \<Rightarrow> False | _ \<Rightarrow> True) \<Longrightarrow>
   chunks_sent s' = chunks_sent s \<and> websocketRef s' = websocketRef s"
  by (cases f)
     (auto simp: ws_send_def chunks_sent_def map_update_same chunks_of_append split: if_splits)

lemma maybePlay_frame:
  "sockets (maybePlayNextAudio s) = sockets s \<and>
   websocketRef (maybePlayNextAudio s) = websocketRef s"
  by (simp add: maybePlayNextAudio_def audio_play_def split: list.splits)


lemma enqueue_frame:
  "sockets (enqueue_audio a s) = sockets s \<and>
   websocketRef (enqueue_audio a s) = websocketRef s"
  by (simp add: enqueue_audio_def maybePlay_frame)

lemma onmessage_frame:
  "chunks_sent (fst (ws_onmessage ws fr s)) = chunks_sent s \<and>
   websocketRef (fst (ws_onmessage ws fr s)) = websocketRef s"
proof (cases fr)
  case Unparseable
  then show ?thesis by (simp add: ws_onmessage_def)
next
  case (Parsed data)
  show ?thesis
  proof (cases "get_prop data ''type''")
    case (Inl e)
    then show ?thesis using Parsed by (simp add: ws_onmessage_def)
  next
    case (Inr ty)
    show ?thesis
    proof (cases "ty = JStr ''ping''")
      case True
      then show ?thesis using Parsed Inr
        by (auto simp: ws_onmessage_def split: sum.splits dest: chunks_sent_ws_send)
    next
      case False
      then show ?thesis using Parsed Inr
        by (simp add: ws_onmessage_def Let_def enqueue_frame chunks_sent_def)
    qed
  qed
qed

lemma fire_keeps_absent:
  assumes "websocketRef s = None" and "\<not> installs_socket e"
  shows "websocketRef (fire e s) = None \<and> chunks_sent (fire e s) = chunks_sent s"
proof (cases e)
  case StartConversation
  then show ?thesis using assms by (simp add: startConversation_def chunks_sent_def)
next
  case StopConversation
  then show ?thesis using assms
    by (simp add: stopConversation_def stopStreaming_def chunks_sent_def)
next
  case (SendTextMessage t)
  then show ?thesis using assms by (simp add: sendTextMessage_def chunks_sent_def)
next
  case (SignedUrlResponse res ok)
  then show ?thesis using assms by simp
next
  case (TtsResponse res)
  have "websocketRef (fst (sendTextMessage_resume res t)) = websocketRef t \<and>
        chunks_sent (fst (sendTextMessage_resume res t)) = chunks_sent t" for t
    by (auto simp: sendTextMessage_resume_def tts_try_def Let_def enqueue_frame chunks_sent_def
          split: sum.splits tts_result.splits if_splits)
  then show ?thesis using TtsResponse assms by (simp add: chunks_sent_def)
next
  case (StreamingStarted ok)
  then show ?thesis using assms by (simp add: ws_onopen_resume_def chunks_sent_def)
next
  case (SocketOpen ws)
  have "websocketRef (fst (ws_onopen ws t)) = websocketRef t \<and>
        chunks_sent (fst (ws_onopen ws t)) = chunks_sent t" for t
    by (auto simp: ws_onopen_def Let_def startStreaming_def chunks_sent_def
          split: sum.splits dest!: chunks_sent_ws_send)
  then show ?thesis using SocketOpen assms
    by (simp add: chunks_sent_set_ready) (simp add: set_ready_def)
next
  case (SocketMessage ws fr)
  then show ?thesis using assms onmessage_frame by simp
next
  case (SocketClose ws)
  have "chunks_sent (fst (ws_onclose ws t)) = chunks_sent t" for t
    by (simp add: ws_onclose_def stopStreaming_def chunks_sent_def)
  then show ?thesis using SocketClose assms
    by (simp add: chunks_sent_set_ready) (simp add: ws_onclose_def stopStreaming_def)
next
  case (AudioChunk d)
  then show ?thesis using assms by (simp add: onAudioChunked_def)
next
  case (AudioEnded k)
  then show ?thesis using assms
    by (simp add: audio_onended_def maybePlay_frame chunks_sent_def)
next
  case (AudioFailed k)
  then show ?thesis using assms
    by (simp add: audio_play_rejected_def maybePlay_frame chunks_sent_def)
qed

lemma run_keeps_absent:
  "websocketRef s = None \<Longrightarrow> list_all (\<lambda>e. \<not> installs_socket e) evs \<Longrightarrow>
   websocketRef (run evs s) = None \<and> chunks_sent (run evs s) = chunks_sent s"
proof (induction evs arbitrary: s)
  case Nil
  then show ?case by simp
next
  case (Cons e evs)
  have "websocketRef (fire e s) = None \<and> chunks_sent (fire e s) = chunks_sent s"
    using Cons.prems fire_keeps_absent by simp
  then show ?case using Cons.IH [of "fire e s"] Cons.prems(2) by simp
qed

lemma stop_absent:
  "websocketRef (fire StopConversation s) = None \<and>
   chunks_sent (fire StopConversation s) = chunks_sent s"
  by (simp add: stopConversation_def stopStreaming_def ws_close_def Let_def
        chunks_sent_set_ready [unfolded chunks_sent_def] chunks_sent_def
        split: option.splits)

lemma close_absent:
  "ws < length (sockets s) \<and> ready s ws \<noteq> CLOSED \<Longrightarrow>
   websocketRef (fire (SocketClose ws) s) = None \<and>
   chunks_sent (fire (SocketClose ws) s) = chunks_sent s"
  by (simp add: ws_onclose_def stopStreaming_def
        chunks_sent_set_ready [unfolded chunks_sent_def] chunks_sent_def)

text \<open>
  What does hold of the callback: a captured frame is sent exactly when
  \<open>websocketRef\<close> holds a socket whose \<^verbatim>\<open>readyState\<close> is OPEN, and then as one user-audio
  chunk on that socket; in every other state the callback returns without any effect
  and without raising. \<^verbatim>\<open>stop()\<close> and the close of a socket both clear \<open>websocketRef\<close>,
  so a frame delivered right after either is dropped, and so is every later one as
  long as no continuation of a \<^verbatim>\<open>startConversation\<close> stores a socket.
\<close>

lemma chunk_sent_only_on_open_socket:
  "(case websocketRef s of
      None \<Rightarrow> onAudioChunked d s = (s, None)
    | Some ws \<Rightarrow>
        (if ready s ws = OPEN
         then onAudioChunked d s =
                (s\<lparr>sockets := (sockets s)[ws := (sockets s ! ws)
                      \<lparr>sent := sent (sockets s ! ws) @ [UserAudioChunk d]\<rparr>]\<rparr>, None)
         else onAudioChunked d s = (s, None))) \<and>
   websocketRef (fire StopConversation s) = None \<and>
   fire (AudioChunk d) (fire StopConversation s) = fire StopConversation s \<and>
   (ws < length (sockets s) \<and> ready s ws \<noteq> CLOSED \<longrightarrow>
      websocketRef (fire (SocketClose ws) s) = None \<and>
      fire (AudioChunk d) (fire (SocketClose ws) s) = fire (SocketClose ws) s) \<and>
   (list_all (\<lambda>e. \<not> installs_socket e) evs \<longrightarrow>
      chunks_sent (run (StopConversation # evs) s) = chunks_sent s \<and>
      (ws < length (sockets s) \<and> ready s ws \<noteq> CLOSED \<longrightarrow>
         chunks_sent (run (SocketClose ws # evs) s) = chunks_sent s))"
proof -
  have a: "case websocketRef s of
      None \<Rightarrow> onAudioChunked d s = (s, None)
    | Some ws \<Rightarrow>
        (if ready s ws = OPEN
         then onAudioChunked d s =
                (s\<lparr>sockets := (sockets s)[ws := (sockets s ! ws)
                      \<lparr>sent := sent (sockets s ! ws) @ [UserAudioChunk d]\<rparr>]\<rparr>, None)
         else onAudioChunked d s = (s, None))"
    by (simp add: onAudioChunked_def ws_send_def split: option.splits)
  have drop: "websocketRef t = None \<Longrightarrow> fire (AudioChunk d) t = t" for t
    by (simp add: onAudioChunked_def)
  have b: "fire (AudioChunk d) (fire StopConversation s) = fire StopConversation s"
    using drop stop_absent by blast
  have c: "ws < length (sockets s) \<and> ready s ws \<noteq> CLOSED \<longrightarrow>
      websocketRef (fire (SocketClose ws) s) = None \<and>
      fire (AudioChunk d) (fire (SocketClose ws) s) = fire (SocketClose ws) s"
    using drop close_absent by blast
  have e: "chunks_sent (run (StopConversation # evs) s) = chunks_sent s"
    if "list_all (\<lambda>e. \<not> installs_socket e) evs"
    using run_keeps_absent [of "fire StopConversation s" evs] that stop_absent [of s] by simp
  have f: "chunks_sent (run (SocketClose ws # evs) s) = chunks_sent s"
    if "list_all (\<lambda>e. \<not> installs_socket e) evs" and "ws < length (sockets s) \<and> ready s ws \<noteq> CLOSED"
    using run_keeps_absent [of "fire (SocketClose ws) s" evs] that close_absent [of ws s]
    by (simp del: fire.simps)
  show ?thesis
    using a b c e f stop_absent [of s] by blast
qed

lemma active_world_eq:
  "active_world =
     \<lparr>messages = [], isRecording = True, isConnected = True, websocketRef = Some 0,
      audioQueueRef = [], isAudioPlayingRef = False,
      sockets = [\<lparr>url = JStr ''wss://agent.example/ws'', readyState = OPEN,
                  sent = [ConversationInitiation]\<rparr>],
      audio_started = [], audio_live = [], streaming = True, console_errors = [],
      signed_url_pending = 0, tts_posted = [], tts_pending = 0, start_streaming_pending = 0\<rparr>"
  by (simp add: active_world_def connecting_world_def init_world_def startConversation_def
        startConversation_resume_def start_try_def get_prop_def signed_url_body_def
        new_WebSocket_def ready_def set_ready_def ws_onopen_def ws_send_def Let_def
        startStreaming_def ws_onopen_resume_def)

section \<open>Stopping\<close>

text \<open>
  What does hold of \<^verbatim>\<open>stopConversation\<close>: called on the state a first call has left it
  returns that very state, and neither call raises. The state a call leaves holds no
  socket, has both indicators off and capture stopped; a socket that was held and
  open has been told to close. Called on a session that is already at rest it changes
  nothing. Nothing is said here of a held socket that is not open.
\<close>

lemma stop_is_idempotent:
  "fst (stopConversation (fst (stopConversation s))) = fst (stopConversation s) \<and>
   snd (stopConversation s) = None \<and>
   snd (stopConversation (fst (stopConversation s))) = None \<and>
   idle (fst (stopConversation s)) \<and>
   (\<forall>ws. websocketRef s = Some ws \<and> ready s ws = OPEN \<longrightarrow>
          ready (fst (stopConversation s)) ws = CLOSING) \<and>
   (idle s \<longrightarrow> fst (stopConversation s) = s)"
  by (auto simp: stopConversation_def stopStreaming_def idle_def Let_def ws_close_def
        set_ready_def ready_def split: option.splits)

section \<open>The text fallback\<close>

text \<open>
  C9. For a truthy text and a successful answer whose body is not \<^verbatim>\<open>null\<close> and has no
  truthy \<^verbatim>\<open>audio\<close> field: the user message is appended, and the continuation returns
  the state as it found it, without raising; so no agent message of any kind is
  appended, no fragment is enqueued or started, and the playing flag is as before.
\<close>

theorem tts_success_without_audio_is_silent:
  assumes "truthy t" and "\<not> nullish data" and "\<not> truthy (member_of data ''audio'')"
  shows "messages (fst (sendTextMessage t s)) = messages s @ [\<lparr>role = User, text = t\<rparr>] \<and>
         sendTextMessage_resume (TtsOk data) (fst (sendTextMessage t s)) =
           (fst (sendTextMessage t s), None) \<and>
         messages (fire (TtsResponse (TtsOk data)) (fire (SendTextMessage t) s)) =
           messages s @ [\<lparr>role = User, text = t\<rparr>] \<and>
         audioQueueRef (fire (TtsResponse (TtsOk data)) (fire (SendTextMessage t) s)) =
           audioQueueRef s \<and>
         audio_started (fire (TtsResponse (TtsOk data)) (fire (SendTextMessage t) s)) =
           audio_started s \<and>
         isAudioPlayingRef (fire (TtsResponse (TtsOk data)) (fire (SendTextMessage t) s)) =
           isAudioPlayingRef s"
  using assms
  by (simp add: sendTextMessage_def sendTextMessage_resume_def tts_try_def get_prop_def)

theorem tts_success_without_audio_is_silent_witness:
  "truthy (JStr ''hello'') \<and> \<not> nullish (JObj [(''format'', JStr ''mp3'')]) \<and>
   \<not> truthy (member_of (JObj [(''format'', JStr ''mp3'')]) ''audio'') \<and>
   messages (fire (TtsResponse (TtsOk (JObj [(''format'', JStr ''mp3'')])))
              (fire (SendTextMessage (JStr ''hello'')) init_world)) =
     [\<lparr>role = User, text = JStr ''hello''\<rparr>] \<and>
   audioQueueRef (fire (TtsResponse (TtsOk (JObj [(''format'', JStr ''mp3'')])))
              (fire (SendTextMessage (JStr ''hello'')) init_world)) = []"
proof -
  have h1: "truthy (JStr ''hello'')" by simp
  have h2: "\<not> nullish (JObj [(''format'', JStr ''mp3'')])" by simp
  have h3: "\<not> truthy (member_of (JObj [(''format'', JStr ''mp3'')]) ''audio'')" by simp
  have i: "messages init_world = [] \<and> audioQueueRef init_world = []"
    by (simp add: init_world_def)
  show ?thesis
    using tts_success_without_audio_is_silent [OF h1 h2 h3, of init_world] h1 h2 h3 i
    by (simp del: fire.simps)
qed

text \<open>
  C10. \<^verbatim>\<open>sendTextMessage\<close> with a falsy text returns at once: the whole state, the
  Message log, the log of posted requests, the audio queue and the playing flag
  included, is unchanged, and nothing is raised.
\<close>

theorem send_falsy_text_is_noop:
  "\<not> truthy t \<Longrightarrow> sendTextMessage t s = (s, None) \<and> fire (SendTextMessage t) s = s"
  by (simp add: sendTextMessage_def)

theorem send_falsy_text_is_noop_witness:
  "\<not> truthy (JStr '''') \<and> sendTextMessage (JStr '''') active_world = (active_world, None) \<and>
   fire (SendTextMessage (JStr '''')) active_world = active_world"
proof -
  have h: "\<not> truthy (JStr '''')" by simp
  show ?thesis
    using send_falsy_text_is_noop [OF h, of active_world] h by (simp del: fire.simps)
qed

section \<open>Inbound frames that do not parse\<close>

lemma run_append: "run (xs @ ys) s = run ys (run xs s)"
  by (induction xs arbitrary: s) simp_all

text \<open>
  \<^verbatim>\<open>ws.onmessage\<close> calls \<^verbatim>\<open>JSON.parse\<close> outside any \<^verbatim>\<open>try\<close>: on a frame that does not parse
  the handler ends by raising the SyntaxError.
\<close>

theorem unparseable_frame_raises_counterexample:
  "snd (ws_onmessage 0 Unparseable active_world) = Some SyntaxError"
  by (simp add: ws_onmessage_def)

text \<open>
  C2, as amended. On a frame that does not parse the handler raises the SyntaxError
  before it has done anything: the state it leaves is the state it found, so the
  socket stays open and the session stays as it was; and a run of events with such a
  frame anywhere in it ends in the same state as the run without it, so the effects
  of the frames before and after are neither removed nor reordered.
\<close>

theorem unparseable_frame_has_no_effect:
  "ws_onmessage ws Unparseable s = (s, Some SyntaxError) \<and>
   fire (SocketMessage ws Unparseable) s = s \<and>
   run (pre @ SocketMessage ws Unparseable # post) s = run (pre @ post) s"
  by (simp add: ws_onmessage_def run_append)

theorem unparseable_frame_has_no_effect_witness:
  "run [SocketMessage 0 (user_transcript_frame (JStr ''hi'')), SocketMessage 0 Unparseable,
        SocketMessage 0 (agent_response_frame (JStr ''hello''))] active_world =
   active_world\<lparr>messages := [\<lparr>role = User, text = JStr ''hi''\<rparr>,
                              \<lparr>role = Agent, text = JStr ''hello''\<rparr>]\<rparr>"
proof -
  have "run ([SocketMessage 0 (user_transcript_frame (JStr ''hi''))] @
             [SocketMessage 0 (agent_response_frame (JStr ''hello''))]) active_world =
        active_world\<lparr>messages := [\<lparr>role = User, text = JStr ''hi''\<rparr>,
                              \<lparr>role = Agent, text = JStr ''hello''\<rparr>]\<rparr>"
    by (simp add: active_world_eq ready_def ws_onmessage_def get_prop_def opt_prop_def
          user_transcript_frame_def agent_response_frame_def Let_def)
  then show ?thesis
    using unparseable_frame_has_no_effect
            [where ws = 0 and s = active_world and
                   pre = "[SocketMessage 0 (user_transcript_frame (JStr ''hi''))]" and
                   post = "[SocketMessage 0 (agent_response_frame (JStr ''hello''))]"]
    by (simp del: run.simps fire.simps)
qed

section \<open>Failures of the control entry points\<close>

text \<open>
  When the request for the signed URL fails, or answers without a URL, the Message
  log stays empty.
\<close>

theorem start_failure_not_in_message_log_counterexample:
  "messages (run [StartConversation, SignedUrlResponse FetchFailed True] init_world) = [] \<and>
   messages (run [StartConversation, SignedUrlResponse (FetchOk (JObj [])) True] init_world) = []"
  by (simp add: init_world_def startConversation_def startConversation_resume_def start_try_def
        get_prop_def)

text \<open>
  C4, as amended. No control entry point, and no continuation of one, lets an
  exception escape. A failure of \<^verbatim>\<open>startConversation\<close> (the request fails, the answer
  carries no truthy \<^verbatim>\<open>signedUrl\<close>, or the platform rejects the URL) is written to the
  console and changes nothing else: the Message log is as before. A failure of the
  synthesis call of \<^verbatim>\<open>sendTextMessage\<close> is written to the console and appended to the
  Message log as an agent entry.
\<close>

theorem entry_point_failures_are_caught:
  "snd (startConversation s) = None \<and>
   snd (startConversation_resume res url_ok s) = None \<and>
   snd (stopConversation s) = None \<and>
   snd (sendTextMessage t s) = None \<and>
   snd (sendTextMessage_resume r s) = None \<and>
   fst (startConversation_resume FetchFailed url_ok s) =
     s\<lparr>console_errors := console_errors s @ [''Failed to start conversation:'']\<rparr> \<and>
   (\<not> truthy (member_of data ''signedUrl'') \<longrightarrow>
      fst (startConversation_resume (FetchOk data) url_ok s) =
        s\<lparr>console_errors := console_errors s @ [''Failed to start conversation:'']\<rparr>) \<and>
   fst (startConversation_resume (FetchOk data) False s) =
     s\<lparr>console_errors := console_errors s @ [''Failed to start conversation:'']\<rparr> \<and>
   fst (sendTextMessage_resume TtsFailed s) =
     s\<lparr>console_errors := console_errors s @ [''Failed to perform TTS:''],
       messages := messages s @
         [\<lparr>role = Agent, text = JStr ''Sorry, I could not process that.''\<rparr>]\<rparr>"
  by (auto simp: startConversation_def startConversation_resume_def start_try_def
        stopConversation_def sendTextMessage_def sendTextMessage_resume_def tts_try_def
        get_prop_def new_WebSocket_def Let_def
        split: sum.splits fetch_result.splits tts_result.splits if_splits)

theorem entry_point_failures_are_caught_witness:
  "\<not> truthy (member_of (JObj [(''error'', JStr ''Agent ID is not configured'')]) ''signedUrl'') \<and>
   fst (startConversation_resume
          (FetchOk (JObj [(''error'', JStr ''Agent ID is not configured'')])) True init_world) =
     init_world\<lparr>console_errors := [''Failed to start conversation:'']\<rparr> \<and>
   messages (fst (sendTextMessage_resume TtsFailed init_world)) =
     [\<lparr>role = Agent, text = JStr ''Sorry, I could not process that.''\<rparr>]"
proof -
  have h: "\<not> truthy (member_of (JObj [(''error'', JStr ''Agent ID is not configured'')])
                        ''signedUrl'')"
    by simp
  have i: "console_errors init_world = [] \<and> messages init_world = []"
    by (simp add: init_world_def)
  show ?thesis
    using entry_point_failures_are_caught
            [where s = init_world and url_ok = True and
                   data = "JObj [(''error'', JStr ''Agent ID is not configured'')]"] h i
    by simp
qed

section \<open>The contract of the text fallback\<close>

text \<open>
  A synthesis call that succeeds with an empty \<^verbatim>\<open>audio\<close> string, which is what the
  backend answers when the upstream audio is empty: only the user message is in the
  log, and no fragment has been enqueued or started.
\<close>

theorem send_text_success_without_audio_counterexample:
  "messages (run [SendTextMessage (JStr ''hello''),
                  TtsResponse (TtsOk (JObj [(''audio'', JStr ''''), (''format'', JStr ''mp3'')]))]
               init_world) = [\<lparr>role = User, text = JStr ''hello''\<rparr>] \<and>
   audio_started (run [SendTextMessage (JStr ''hello''),
                  TtsResponse (TtsOk (JObj [(''audio'', JStr ''''), (''format'', JStr ''mp3'')]))]
               init_world) = [] \<and>
   audioQueueRef (run [SendTextMessage (JStr ''hello''),
                  TtsResponse (TtsOk (JObj [(''audio'', JStr ''''), (''format'', JStr ''mp3'')]))]
               init_world) = []"
  by (simp add: init_world_def sendTextMessage_def sendTextMessage_resume_def tts_try_def
        get_prop_def)

lemma enqueue_audio_grows:
  "seq_inv s \<Longrightarrow> truthy a \<Longrightarrow>
   audio_started (enqueue_audio a s) @ audioQueueRef (enqueue_audio a s) =
     audio_started s @ audioQueueRef s @ [a] \<and>
   messages (enqueue_audio a s) = messages s \<and>
   console_errors (enqueue_audio a s) = console_errors s"
  by (auto simp: seq_inv_def enqueue_audio_def maybePlayNextAudio_def audio_play_def
        split: list.splits if_splits)

text \<open>
  C5, as amended. For a truthy text, \<^verbatim>\<open>sendTextMessage\<close> appends the user message and
  posts the request at once, leaving the sequencer alone. When the call later settles,
  in a state that satisfies the sequencer's invariant: if it succeeded and the body
  carries a truthy \<^verbatim>\<open>audio\<close>, exactly that one fragment is enqueued and the agent entry
  \<^verbatim>\<open>[audio]\<close> is appended; if it failed, the agent entry
  \<^verbatim>\<open>Sorry, I could not process that.\<close> is appended and no fragment is enqueued or
  started.
\<close>

theorem send_text_contract:
  assumes "truthy t" and "seq_inv s'"
  shows "messages (fst (sendTextMessage t s)) = messages s @ [\<lparr>role = User, text = t\<rparr>] \<and>
         tts_posted (fst (sendTextMessage t s)) = tts_posted s @ [t] \<and>
         audio_started (fst (sendTextMessage t s)) = audio_started s \<and>
         audioQueueRef (fst (sendTextMessage t s)) = audioQueueRef s \<and>
         (truthy (member_of data ''audio'') \<longrightarrow>
            messages (fst (sendTextMessage_resume (TtsOk data) s')) =
              messages s' @ [\<lparr>role = Agent, text = JStr ''[audio]''\<rparr>] \<and>
            audio_started (fst (sendTextMessage_resume (TtsOk data) s')) @
            audioQueueRef (fst (sendTextMessage_resume (TtsOk data) s')) =
              audio_started s' @ audioQueueRef s' @ [member_of data ''audio'']) \<and>
         messages (fst (sendTextMessage_resume TtsFailed s')) =
           messages s' @ [\<lparr>role = Agent, text = JStr ''Sorry, I could not process that.''\<rparr>] \<and>
         audio_started (fst (sendTextMessage_resume TtsFailed s')) = audio_started s' \<and>
         audioQueueRef (fst (sendTextMessage_resume TtsFailed s')) = audioQueueRef s'"
proof -
  have sync: "messages (fst (sendTextMessage t s)) = messages s @ [\<lparr>role = User, text = t\<rparr>] \<and>
         tts_posted (fst (sendTextMessage t s)) = tts_posted s @ [t] \<and>
         audio_started (fst (sendTextMessage t s)) = audio_started s \<and>
         audioQueueRef (fst (sendTextMessage t s)) = audioQueueRef s"
    using assms(1) by (simp add: sendTextMessage_def)
  have ok: "messages (fst (sendTextMessage_resume (TtsOk data) s')) =
              messages s' @ [\<lparr>role = Agent, text = JStr ''[audio]''\<rparr>] \<and>
            audio_started (fst (sendTextMessage_resume (TtsOk data) s')) @
            audioQueueRef (fst (sendTextMessage_resume (TtsOk data) s')) =
              audio_started s' @ audioQueueRef s' @ [member_of data ''audio'']"
    if a: "truthy (member_of data ''audio'')"
  proof -
    have "\<not> nullish data" using a by (cases data) simp_all
    then have "fst (sendTextMessage_resume (TtsOk data) s') =
          (enqueue_audio (member_of data ''audio'') s')
            \<lparr>messages := messages (enqueue_audio (member_of data ''audio'') s') @
               [\<lparr>role = Agent, text = JStr ''[audio]''\<rparr>]\<rparr>"
      using a by (simp add: sendTextMessage_resume_def tts_try_def get_prop_def Let_def)
    then show ?thesis
      using enqueue_audio_grows [OF assms(2) a] by simp
  qed
  have failed: "messages (fst (sendTextMessage_resume TtsFailed s')) =
           messages s' @ [\<lparr>role = Agent, text = JStr ''Sorry, I could not process that.''\<rparr>] \<and>
         audio_started (fst (sendTextMessage_resume TtsFailed s')) = audio_started s' \<and>
         audioQueueRef (fst (sendTextMessage_resume TtsFailed s')) = audioQueueRef s'"
    by (simp add: sendTextMessage_resume_def tts_try_def)
  show ?thesis
    using sync ok failed by blast
qed

theorem send_text_contract_witness:
  "truthy (JStr ''hello'') \<and> seq_inv (fst (sendTextMessage (JStr ''hello'') init_world)) \<and>
   truthy (member_of (JObj [(''audio'', JStr ''QUJD''), (''format'', JStr ''mp3'')]) ''audio'') \<and>
   messages (fst (sendTextMessage_resume
                    (TtsOk (JObj [(''audio'', JStr ''QUJD''), (''format'', JStr ''mp3'')]))
                    (fst (sendTextMessage (JStr ''hello'') init_world)))) =
     [\<lparr>role = User, text = JStr ''hello''\<rparr>, \<lparr>role = Agent, text = JStr ''[audio]''\<rparr>] \<and>
   audio_started (fst (sendTextMessage_resume
                    (TtsOk (JObj [(''audio'', JStr ''QUJD''), (''format'', JStr ''mp3'')]))
                    (fst (sendTextMessage (JStr ''hello'') init_world)))) @
   audioQueueRef (fst (sendTextMessage_resume
                    (TtsOk (JObj [(''audio'', JStr ''QUJD''), (''format'', JStr ''mp3'')]))
                    (fst (sendTextMessage (JStr ''hello'') init_world)))) = [JStr ''QUJD'']"
proof -
  have h1: "truthy (JStr ''hello'')" by simp
  have h2: "seq_inv (fst (sendTextMessage (JStr ''hello'') init_world))"
    by (simp add: seq_inv_def sendTextMessage_def init_world_def)
  have h3: "truthy (member_of (JObj [(''audio'', JStr ''QUJD''), (''format'', JStr ''mp3'')])
                      ''audio'')"
    by simp
  have i: "messages init_world = [] \<and> audio_started init_world = [] \<and>
           audioQueueRef init_world = []"
    by (simp add: init_world_def)
  show ?thesis
    using send_text_contract [OF h1 h2, where s = init_world and
            data = "JObj [(''audio'', JStr ''QUJD''), (''format'', JStr ''mp3'')]"] h1 h2 h3 i
    by simp
qed

section \<open>A scripted run of inbound frames\<close>

lemma connecting_world_eq:
  "connecting_world =
     \<lparr>messages = [], isRecording = False, isConnected = False, websocketRef = Some 0,
      audioQueueRef = [], isAudioPlayingRef = False,
      sockets = [\<lparr>url = JStr ''wss://agent.example/ws'', readyState = CONNECTING, sent = []\<rparr>],
      audio_started = [], audio_live = [], streaming = False, console_errors = [],
      signed_url_pending = 0, tts_posted = [], tts_pending = 0, start_streaming_pending = 0\<rparr>"
  by (simp add: connecting_world_def init_world_def startConversation_def
        startConversation_resume_def start_try_def get_prop_def signed_url_body_def
        new_WebSocket_def)

text \<open>
  C6. From the Active state, the frames ping (id 7), user transcript \<^verbatim>\<open>hi\<close>, audio A,
  agent response \<^verbatim>\<open>hello\<close>, audio B, with A and B truthy, leave the Message log
  \<^verbatim>\<open>[{user, hi}, {agent, hello}]\<close>, one pong with event id 7 sent after the initiation
  message and nothing else sent, A started and B waiting. The ping changes nothing but
  the frames sent on the socket. Following the run step by step, and on through the
  end of A and the end of B, at most one element is live at every step, and B is
  started only when A has ended.
\<close>

theorem scripted_frames_trace:
  assumes "truthy A" and "truthy B"
  shows "run [SocketMessage 0 (ping_frame (JNum 7)),
              SocketMessage 0 (user_transcript_frame (JStr ''hi'')),
              SocketMessage 0 (audio_frame A),
              SocketMessage 0 (agent_response_frame (JStr ''hello'')),
              SocketMessage 0 (audio_frame B)] active_world =
           active_world
             \<lparr>messages := [\<lparr>role = User, text = JStr ''hi''\<rparr>,
                           \<lparr>role = Agent, text = JStr ''hello''\<rparr>],
              sockets := [\<lparr>url = JStr ''wss://agent.example/ws'', readyState = OPEN,
                           sent = [ConversationInitiation, Pong (JNum 7)]\<rparr>],
              audio_started := [A], audio_live := [0], isAudioPlayingRef := True,
              audioQueueRef := [B]\<rparr> \<and>
         fire (SocketMessage 0 (ping_frame (JNum 7))) active_world =
           active_world
             \<lparr>sockets := [\<lparr>url = JStr ''wss://agent.example/ws'', readyState = OPEN,
                           sent = [ConversationInitiation, Pong (JNum 7)]\<rparr>]\<rparr> \<and>
         map (\<lambda>n. audio_live
                    (run (take n [SocketMessage 0 (ping_frame (JNum 7)),
                                  SocketMessage 0 (user_transcript_frame (JStr ''hi'')),
                                  SocketMessage 0 (audio_frame A),
                                  SocketMessage 0 (agent_response_frame (JStr ''hello'')),
                                  SocketMessage 0 (audio_frame B),
                                  AudioEnded 0, AudioEnded 1]) active_world))
             [0, 1, 2, 3, 4, 5, 6, 7] = [[], [], [], [0], [0], [0], [1], []] \<and>
         map (\<lambda>n. audio_started
                    (run (take n [SocketMessage 0 (ping_frame (JNum 7)),
                                  SocketMessage 0 (user_transcript_frame (JStr ''hi'')),
                                  SocketMessage 0 (audio_frame A),
                                  SocketMessage 0 (agent_response_frame (JStr ''hello'')),
                                  SocketMessage 0 (audio_frame B),
                                  AudioEnded 0, AudioEnded 1]) active_world))
             [0, 1, 2, 3, 4, 5, 6, 7] = [[], [], [], [A], [A], [A], [A, B], [A, B]]"
  using assms
  by (simp add: active_world_eq ready_def ws_onmessage_def get_prop_def opt_prop_def
        ping_frame_def user_transcript_frame_def agent_response_frame_def audio_frame_def
        ws_send_def enqueue_audio_def maybePlayNextAudio_def audio_play_def audio_onended_def
        Let_def)

theorem scripted_frames_trace_witness:
  "truthy (JStr ''QQ=='') \<and> truthy (JStr ''Qg=='') \<and>
   messages (run [SocketMessage 0 (ping_frame (JNum 7)),
                  SocketMessage 0 (user_transcript_frame (JStr ''hi'')),
                  SocketMessage 0 (audio_frame (JStr ''QQ=='')),
                  SocketMessage 0 (agent_response_frame (JStr ''hello'')),
                  SocketMessage 0 (audio_frame (JStr ''Qg==''))] active_world) =
     [\<lparr>role = User, text = JStr ''hi''\<rparr>, \<lparr>role = Agent, text = JStr ''hello''\<rparr>]"
proof -
  have h1: "truthy (JStr ''QQ=='')" by simp
  have h2: "truthy (JStr ''Qg=='')" by simp
  show ?thesis
    using scripted_frames_trace [OF h1 h2] h1 h2 by (simp del: run.simps fire.simps)
qed

section \<open>Stopping while the socket is connecting\<close>

text \<open>
  C3. \<^verbatim>\<open>stopConversation\<close> closes the socket only when it is OPEN. Called while the
  socket is still CONNECTING it merely forgets the socket, which stays CONNECTING.
  When that socket then opens, its handlers still run: the initiation message is sent,
  capture is started, both indicators are set, and an inbound audio frame is enqueued
  and played; the socket is open and can no longer be reached through
  \<open>websocketRef\<close>. Called while the request for the signed URL is pending, the stop
  is forgotten altogether: the session starts and captured frames are sent.
\<close>

theorem stop_while_connecting_leaks_session:
  "fire StopConversation connecting_world =
     connecting_world\<lparr>websocketRef := None\<rparr> \<and>
   ready (fire StopConversation connecting_world) 0 = CONNECTING \<and>
   run [StopConversation, SocketOpen 0, StreamingStarted True,
        SocketMessage 0 (audio_frame (JStr ''QQ==''))] connecting_world =
     \<lparr>messages = [], isRecording = True, isConnected = True, websocketRef = None,
      audioQueueRef = [], isAudioPlayingRef = True,
      sockets = [\<lparr>url = JStr ''wss://agent.example/ws'', readyState = OPEN,
                  sent = [ConversationInitiation]\<rparr>],
      audio_started = [JStr ''QQ==''], audio_live = [0], streaming = True, console_errors = [],
      signed_url_pending = 0, tts_posted = [], tts_pending = 0, start_streaming_pending = 0\<rparr> \<and>
   run [StartConversation, StopConversation, SignedUrlResponse (FetchOk signed_url_body) True,
        SocketOpen 0, StreamingStarted True, AudioChunk (JStr ''pcm'')] init_world =
     \<lparr>messages = [], isRecording = True, isConnected = True, websocketRef = Some 0,
      audioQueueRef = [], isAudioPlayingRef = False,
      sockets = [\<lparr>url = JStr ''wss://agent.example/ws'', readyState = OPEN,
                  sent = [ConversationInitiation, UserAudioChunk (JStr ''pcm'')]\<rparr>],
      audio_started = [], audio_live = [], streaming = True, console_errors = [],
      signed_url_pending = 0, tts_posted = [], tts_pending = 0, start_streaming_pending = 0\<rparr>"
  by (simp add: connecting_world_eq init_world_def stopConversation_def stopStreaming_def
        startConversation_def startConversation_resume_def start_try_def signed_url_body_def
        new_WebSocket_def ready_def set_ready_def ws_onopen_def ws_send_def startStreaming_def
        ws_onopen_resume_def ws_onmessage_def get_prop_def opt_prop_def audio_frame_def
        enqueue_audio_def maybePlayNextAudio_def audio_play_def onAudioChunked_def Let_def)

section \<open>A captured frame after a stop\<close>

text \<open>
  C7. A stop does not cancel a start whose request for the signed URL is still
  pending. After \<^verbatim>\<open>startConversation\<close> and \<^verbatim>\<open>stopConversation\<close> no socket is held; the
  request then succeeds, the continuation stores a new socket, it opens, capture
  starts, and the next captured frame is sent on it, after the stop and with no new
  start. The same happens from the UI: two starts, the first session up and
  recording, one stop, and then the second request succeeds; the captured frame goes
  out on the second socket while the first is closing.
\<close>

theorem frame_sent_after_stop:
  "websocketRef (run [StartConversation, StopConversation] init_world) = None \<and>
   chunks_sent (run [StartConversation, StopConversation,
                     SignedUrlResponse (FetchOk signed_url_body) True, SocketOpen 0,
                     StreamingStarted True, AudioChunk (JStr ''pcm'')] init_world) =
     [[JStr ''pcm'']] \<and>
   isRecording (run [StartConversation, StartConversation,
                     SignedUrlResponse (FetchOk signed_url_body) True, SocketOpen 0,
                     StreamingStarted True] init_world) \<and>
   websocketRef (run [StartConversation, StartConversation,
                     SignedUrlResponse (FetchOk signed_url_body) True, SocketOpen 0,
                     StreamingStarted True, StopConversation] init_world) = None \<and>
   sockets (run [StartConversation, StartConversation,
                 SignedUrlResponse (FetchOk signed_url_body) True, SocketOpen 0,
                 StreamingStarted True, StopConversation,
                 SignedUrlResponse (FetchOk signed_url_body) True, SocketOpen 1,
                 StreamingStarted True, AudioChunk (JStr ''pcm'')] init_world) =
     [\<lparr>url = JStr ''wss://agent.example/ws'', readyState = CLOSING,
       sent = [ConversationInitiation]\<rparr>,
      \<lparr>url = JStr ''wss://agent.example/ws'', readyState = OPEN,
       sent = [ConversationInitiation, UserAudioChunk (JStr ''pcm'')]\<rparr>]"
  by (simp add: init_world_def stopConversation_def stopStreaming_def
        startConversation_def startConversation_resume_def start_try_def signed_url_body_def
        new_WebSocket_def ready_def set_ready_def ws_onopen_def ws_send_def startStreaming_def
        ws_onopen_resume_def get_prop_def onAudioChunked_def ws_close_def chunks_sent_def
        Let_def)

section \<open>Stopping twice while a socket is connecting\<close>

text \<open>
  C8. Two stops in a row leave the state one stop leaves, but that state need not
  have released the socket. On a session whose socket is still CONNECTING both stops
  only forget the socket: it stays CONNECTING, and when it opens the initiation
  message is sent, capture starts and both indicators are set. And after two starts
  of which the second socket is still connecting, two stops close neither socket: the
  first stays OPEN, the second CONNECTING.
\<close>

theorem stop_twice_leaves_connecting_socket:
  "run [StopConversation, StopConversation] connecting_world =
     run [StopConversation] connecting_world \<and>
   run [StopConversation, StopConversation] connecting_world =
     connecting_world\<lparr>websocketRef := None\<rparr> \<and>
   ready (run [StopConversation, StopConversation] connecting_world) 0 = CONNECTING \<and>
   run [StopConversation, StopConversation, SocketOpen 0, StreamingStarted True]
       connecting_world =
     \<lparr>messages = [], isRecording = True, isConnected = True, websocketRef = None,
      audioQueueRef = [], isAudioPlayingRef = False,
      sockets = [\<lparr>url = JStr ''wss://agent.example/ws'', readyState = OPEN,
                  sent = [ConversationInitiation]\<rparr>],
      audio_started = [], audio_live = [], streaming = True, console_errors = [],
      signed_url_pending = 0, tts_posted = [], tts_pending = 0, start_streaming_pending = 0\<rparr> \<and>
   isRecording (run [StartConversation, StartConversation,
                     SignedUrlResponse (FetchOk signed_url_body) True,
                     SignedUrlResponse (FetchOk signed_url_body) True, SocketOpen 0,
                     StreamingStarted True] init_world) \<and>
   map readyState
     (sockets (run [StartConversation, StartConversation,
                    SignedUrlResponse (FetchOk signed_url_body) True,
                    SignedUrlResponse (FetchOk signed_url_body) True, SocketOpen 0,
                    StreamingStarted True, StopConversation, StopConversation] init_world)) =
     [OPEN, CONNECTING]"
  by (simp add: connecting_world_eq init_world_def stopConversation_def stopStreaming_def
        startConversation_def startConversation_resume_def start_try_def signed_url_body_def
        new_WebSocket_def ready_def set_ready_def ws_onopen_def ws_send_def startStreaming_def
        ws_onopen_resume_def get_prop_def ws_close_def Let_def)

end
